theory Spec2Isabelle
  imports Complex_Main
begin

section \<open>Number arithmetic of the source, on integers\<close>

text \<open>
  The block value, the cube indices and the two layout constants are TypeScript numbers
  that hold integers; they are modelled as \<open>int\<close>. \<open>Math.floor(a / b)\<close> is the floor of
  the exact quotient, \<open>Math.ceil(a / b)\<close> its ceiling, and \<open>a % b\<close> is the remainder
  that takes the sign of the dividend. The divisors of the source are 2, 3, 10 and the
  column count, which is at least 2, so no quotient has a zero divisor.
\<close>

definition floor_div :: "int \<Rightarrow> int \<Rightarrow> int" where
  "floor_div a b = a div b"

definition ceil_div :: "int \<Rightarrow> int \<Rightarrow> int" where
  "ceil_div a b = - ((- a) div b)"

definition js_rem :: "int \<Rightarrow> int \<Rightarrow> int" where
  "js_rem a b = sgn a * (\<bar>a\<bar> mod \<bar>b\<bar>)"

section \<open>Cube layout: \<open>getCubePositions\<close>\<close>

text \<open>The fields \<open>x\<close> and \<open>y\<close> of \<open>Position\<close> are \<open>pos_x\<close> and \<open>pos_y\<close> here.\<close>

record Position =
  pos_x :: int
  pos_y :: int

text \<open>
  Each branch of \<open>getCubePositions\<close> is a loop
  \<^verbatim>\<open>for (let i = 0; i < n; i++) positions.push(body(i))\<close>
  on the array \<open>positions\<close>. \<open>forPush\<close> is that loop, started at index \<open>i\<close> with the
  array built so far.
\<close>

function forPush :: "(int \<Rightarrow> 'a) \<Rightarrow> int \<Rightarrow> int \<Rightarrow> 'a list \<Rightarrow> 'a list" where
  "forPush body i n positions =
     (if i < n then forPush body (i + 1) n (positions @ [body i]) else positions)"
  by pat_completeness auto
termination
  by (relation "measure (\<lambda>(body, i, n, positions). nat (n - i))") auto

declare forPush.simps [simp del]

text \<open>
  \<open>CUBE_SIZE\<close> and \<open>CUBE_GAP\<close> are imported from \<open>types\<close>; the functions that use them
  take them as parameters.
\<close>

definition getCubePositions :: "int \<Rightarrow> int \<Rightarrow> int \<Rightarrow> Position list" where
  "getCubePositions CUBE_SIZE CUBE_GAP value =
     (if value = 4 then
        forPush (\<lambda>i. let row = floor_div i 2; col = js_rem i 2
                      in \<lparr>pos_x = col * (CUBE_SIZE + CUBE_GAP),
                          pos_y = (1 - row) * (CUBE_SIZE + CUBE_GAP)\<rparr>) 0 4 []
      else if value = 7 then
        forPush (\<lambda>i. \<lparr>pos_x = 0,
                        pos_y = (value - 1 - i) * (CUBE_SIZE + CUBE_GAP)\<rparr>) 0 value []
      else if value = 9 then
        forPush (\<lambda>i. let row = floor_div i 3; col = js_rem i 3
                      in \<lparr>pos_x = col * (CUBE_SIZE + CUBE_GAP),
                          pos_y = (2 - row) * (CUBE_SIZE + CUBE_GAP)\<rparr>) 0 9 []
      else if value \<le> 5 then
        forPush (\<lambda>i. \<lparr>pos_x = 0,
                        pos_y = (value - 1 - i) * (CUBE_SIZE + CUBE_GAP)\<rparr>) 0 value []
      else
        (let cols = (if value \<ge> 30 then floor_div value 10 else 2);
             rows = ceil_div value cols
         in forPush (\<lambda>i. let row = floor_div i cols; col = js_rem i cols
                          in \<lparr>pos_x = col * (CUBE_SIZE + CUBE_GAP),
                              pos_y = (rows - 1 - row) * (CUBE_SIZE + CUBE_GAP)\<rparr>)
              0 value []))"

section \<open>Cube colors: \<open>getCubeColor\<close>\<close>

definition NINE_GRAY_COLORS :: "string list" where
  "NINE_GRAY_COLORS =
     [''#D0D0D0'', ''#D0D0D0'', ''#D0D0D0'',
      ''#A0A0A0'', ''#A0A0A0'', ''#A0A0A0'',
      ''#606060'', ''#606060'', ''#606060'']"

text \<open>
  \<open>arr[i]\<close> on an array is \<open>undefined\<close> outside \<open>0 .. length - 1\<close>; \<open>a || b\<close> takes \<open>b\<close>
  when \<open>a\<close> is \<open>undefined\<close> or the empty string.
\<close>

definition arrayGet :: "'a list \<Rightarrow> int \<Rightarrow> 'a option" where
  "arrayGet arr i = (if 0 \<le> i \<and> i < int (length arr) then Some (arr ! nat i) else None)"

definition orElse :: "string option \<Rightarrow> string \<Rightarrow> string" where
  "orElse a b = (case a of None \<Rightarrow> b | Some s \<Rightarrow> if s = [] then b else s)"

text \<open>
  \<open>getNumberBlockColor\<close> is imported from \<open>types\<close>; \<open>getCubeColor\<close> takes it as its first
  parameter. The parameter \<open>totalCubes\<close> of the source is never read.
\<close>

definition getCubeColor :: "(int \<Rightarrow> string) \<Rightarrow> int \<Rightarrow> int \<Rightarrow> int \<Rightarrow> string" where
  "getCubeColor getNumberBlockColor blockValue cubeIndex totalCubes =
     (if blockValue = 7 then getNumberBlockColor (cubeIndex + 1)
      else if blockValue = 9 then orElse (arrayGet NINE_GRAY_COLORS cubeIndex) ''#808080''
      else if blockValue \<le> 10 then getNumberBlockColor blockValue
      else
        (let tensCount = floor_div blockValue 10 * 10;
             remainder = js_rem blockValue 10
         in if cubeIndex < tensCount then ''#FFFFFF''
            else
              (let remainderIndex = cubeIndex - tensCount
               in if remainder = 7 then getNumberBlockColor (remainderIndex + 1)
                  else if remainder = 9
                    then orElse (arrayGet NINE_GRAY_COLORS remainderIndex) ''#808080''
                  else if remainder = 0 then ''#FFFFFF''
                  else getNumberBlockColor remainder)))"

text \<open>
  Modelled from the spec: \<open>getNumberBlockColor\<close> lives in \<open>src/types/index.ts\<close>, which is
  not among the sources. The spec names the base palette
  "1=Red, 2=Orange, 3=Yellow, 4=Green, 5=Cyan, 6=Indigo, 7=Violet, 8=Magenta, 10=White"
  and gives no color to any other value; \<open>basePalette\<close> returns the empty string there.
\<close>

definition basePalette :: "int \<Rightarrow> string" where
  "basePalette v =
     (case map_of [(1, ''Red''), (2, ''Orange''), (3, ''Yellow''), (4, ''Green''),
                   (5, ''Cyan''), (6, ''Indigo''), (7, ''Violet''), (8, ''Magenta''),
                   (10, ''White'')] v
      of None \<Rightarrow> [] | Some c \<Rightarrow> c)"


section \<open>The rendered block: \<open>Cube\<close> and \<open>NumberBlock\<close>\<close>

datatype StarColor = Red | Blue

datatype Eye = NormalEye | StarEye StarColor

text \<open>The props of \<open>Cube\<close>, each field with the prefix \<open>cube_\<close>; \<open>starEyes\<close> is
  \<open>'red' | 'blue' | false\<close>, with \<open>None\<close> for \<open>false\<close>; \<open>style\<close> holds \<open>left\<close> and \<open>top\<close>.\<close>

record CubeProps =
  cube_color :: string
  cube_hasRedOutline :: bool
  cube_hasFace :: bool
  cube_eyeCount :: int
  cube_starEyes :: "StarColor option"
  cube_left :: int
  cube_top :: int

text \<open>What \<open>Cube\<close> draws inside \<open>cube-eyes\<close>: the left eye, then the right eye; a cube
  without \<open>hasFace\<close> draws no face at all.\<close>

record Face =
  leftEye :: "Eye option"
  rightEye :: "Eye option"

definition cubeFace :: "CubeProps \<Rightarrow> Face option" where
  "cubeFace props =
     (if cube_hasFace props then
        Some \<lparr>leftEye =
                (if cube_eyeCount props \<ge> 1 then
                   Some (if cube_starEyes props = Some Blue then StarEye Blue
                         else if cube_starEyes props = Some Red then StarEye Red
                         else NormalEye)
                 else None),
              rightEye =
                (if cube_eyeCount props \<ge> 2 then
                   Some (if cube_starEyes props = Some Red then StarEye Red else NormalEye)
                 else None)\<rparr>
      else None)"

text \<open>
  \<open>arr.reduce(f, init)\<close> calls \<open>f(acc, arr[idx], idx, arr)\<close> for \<open>idx = 0, 1, ...\<close> in
  order. \<open>topCubeStep\<close> is the callback that \<open>NumberBlock\<close> passes.
\<close>

definition reduce :: "('b \<Rightarrow> 'a \<Rightarrow> nat \<Rightarrow> 'a list \<Rightarrow> 'b) \<Rightarrow> 'b \<Rightarrow> 'a list \<Rightarrow> 'b" where
  "reduce f init arr = fold (\<lambda>idx acc. f acc (arr ! idx) idx arr) [0..<length arr] init"

definition topCubeStep :: "nat \<Rightarrow> Position \<Rightarrow> nat \<Rightarrow> Position list \<Rightarrow> nat" where
  "topCubeStep minIdx pos idx arr =
     (let minPos = arr ! minIdx
      in if pos_y pos < pos_y minPos then idx
         else if pos_y pos > pos_y minPos then minIdx
         else if pos_x pos < pos_x minPos then idx
         else minIdx)"

definition topCubeIndex :: "Position list \<Rightarrow> nat" where
  "topCubeIndex cubePositions = reduce topCubeStep 0 cubePositions"

definition eyeCount :: "int \<Rightarrow> int" where
  "eyeCount value = (if value = 1 then 1 else 2)"

definition starEyes :: "int \<Rightarrow> StarColor option" where
  "starEyes value = (if value = 5 then Some Blue else if value = 10 then Some Red else None)"

text \<open>The cubes that \<open>NumberBlock\<close> renders, in the order of \<open>cubePositions.map\<close>.\<close>

definition NumberBlock :: "(int \<Rightarrow> string) \<Rightarrow> int \<Rightarrow> int \<Rightarrow> int \<Rightarrow> CubeProps list" where
  "NumberBlock getNumberBlockColor CUBE_SIZE CUBE_GAP value =
     (let cubePositions = getCubePositions CUBE_SIZE CUBE_GAP value
      in map (\<lambda>(index, pos).
           let tensCount = (if value \<ge> 10 then floor_div value 10 * 10 else 0);
               hasRedOutline = (value \<ge> 10 \<and> (js_rem value 10 = 0 \<or> int index < tensCount))
           in \<lparr>cube_color = getCubeColor getNumberBlockColor value (int index)
                               (int (length cubePositions)),
               cube_hasRedOutline = hasRedOutline,
               cube_hasFace = (index = topCubeIndex cubePositions),
               cube_eyeCount = eyeCount value,
               cube_starEyes = starEyes value,
               cube_left = pos_x pos,
               cube_top = pos_y pos\<rparr>)
         (enumerate 0 cubePositions))"

section \<open>The layout and the face rule in the words of the specification\<close>

text \<open>
  The specification places cube \<open>i\<close> of a grid with \<open>cols\<close> columns and \<open>rows\<close> rows at
  \<open>x = (i mod cols) * (cubeSize + gap)\<close>, \<open>y = (rows - 1 - floor (i / cols)) * (cubeSize + gap)\<close>.
  \<open>gridLayout u cols rows n\<close> lists these offsets for the indices \<open>0 .. n - 1\<close>, with
  \<open>u = cubeSize + gap\<close>. It is compared with \<open>getCubePositions\<close> below.
\<close>

definition gridLayout :: "int \<Rightarrow> int \<Rightarrow> int \<Rightarrow> int \<Rightarrow> Position list" where
  "gridLayout u cols rows n =
     map (\<lambda>i. \<lparr>pos_x = (i mod cols) * u, pos_y = (rows - 1 - i div cols) * u\<rparr>) [0..n - 1]"

text \<open>
  "Topmost, then leftmost": \<open>topLeftLe p q\<close> holds when \<open>p\<close> has the smaller vertical
  offset, or the same vertical offset and a horizontal offset that is not larger.
\<close>

definition topLeftLe :: "Position \<Rightarrow> Position \<Rightarrow> bool" where
  "topLeftLe p q \<longleftrightarrow> pos_y p < pos_y q \<or> (pos_y p = pos_y q \<and> pos_x p \<le> pos_x q)"

section \<open>The arithmetic model agrees with the real-number operations\<close>

lemma floor_div_real: "floor_div a b = \<lfloor>real_of_int a / real_of_int b\<rfloor>"
  by (simp add: floor_div_def floor_divide_of_int_eq)

lemma ceil_div_real: "ceil_div a b = \<lceil>real_of_int a / real_of_int b\<rceil>"
  by (simp add: ceil_div_def ceiling_divide_eq_div)

lemma js_rem_nonneg: "0 \<le> a \<Longrightarrow> 0 < b \<Longrightarrow> js_rem a b = a mod b"
  by (cases "a = 0") (simp_all add: js_rem_def)

section \<open>The push loop as a map over the index range\<close>

lemma forPush_eq: "forPush body i n acc = acc @ map body [i..n - 1]"
proof (induction body i n acc rule: forPush.induct)
  case (1 body i n positions)
  show ?case
  proof (cases "i < n")
    case True
    then have "[i..n - 1] = i # [i + 1..n - 1]"
      by (simp add: upto_rec1)
    with True "1" show ?thesis
      by (simp add: forPush.simps [of body i n positions])
  next
    case False
    then show ?thesis
      by (simp add: forPush.simps [of body i n positions])
  qed
qed

section \<open>Every branch of the layout is a grid\<close>

lemma length_gridLayout: "length (gridLayout u c r n) = nat n"
  by (simp add: gridLayout_def)

lemma nth_gridLayout:
  "0 \<le> i \<Longrightarrow> i < n \<Longrightarrow>
   gridLayout u c r n ! nat i = \<lparr>pos_x = (i mod c) * u, pos_y = (r - 1 - i div c) * u\<rparr>"
  by (simp add: gridLayout_def)

lemma gridCell_inj:
  assumes "u \<noteq> 0"
    and "\<lparr>pos_x = (i mod c) * u, pos_y = (r - 1 - i div c) * u\<rparr>
       = \<lparr>pos_x = (j mod c) * u, pos_y = (r - 1 - j div c) * u\<rparr>"
  shows "i = j"
proof -
  from assms(2) have "(i mod c) * u = (j mod c) * u"
    and "(r - 1 - i div c) * u = (r - 1 - j div c) * u"
    by simp_all
  with assms(1) have m: "i mod c = j mod c" and d: "i div c = j div c"
    by simp_all
  have "i = c * (i div c) + i mod c" by simp
  also have "\<dots> = c * (j div c) + j mod c" by (simp only: m d)
  also have "\<dots> = j" by simp
  finally show "i = j" .
qed

lemma distinct_gridLayout:
  assumes "u \<noteq> 0"
  shows "distinct (gridLayout u c r n)"
proof -
  have "inj_on (\<lambda>i. \<lparr>pos_x = (i mod c) * u, pos_y = (r - 1 - i div c) * u\<rparr>) (set [0..n - 1])"
    by (rule inj_onI) (rule gridCell_inj [OF assms])
  then show ?thesis
    unfolding gridLayout_def by (simp only: distinct_map distinct_upto simp_thms)
qed

lemma forPush_grid:
  assumes "0 < c"
  shows "forPush (\<lambda>i. \<lparr>pos_x = js_rem i c * u, pos_y = (k - floor_div i c) * u\<rparr>) 0 n []
         = gridLayout u c (k + 1) n"
  unfolding forPush_eq gridLayout_def floor_div_def append_Nil
proof (rule map_cong [OF refl])
  fix i assume "i \<in> set [0..n - 1]"
  then have "0 \<le> i" by simp
  with assms show "\<lparr>pos_x = js_rem i c * u, pos_y = (k - i div c) * u\<rparr>
      = \<lparr>pos_x = i mod c * u, pos_y = (k + 1 - 1 - i div c) * u\<rparr>"
    by (simp add: js_rem_nonneg)
qed

lemma forPush_column:
  "forPush (\<lambda>i. \<lparr>pos_x = 0, pos_y = (k - i) * u\<rparr>) 0 n [] = gridLayout u 1 (k + 1) n"
  by (simp add: forPush_eq gridLayout_def)

lemma getCubePositions_4: "getCubePositions S G 4 = gridLayout (S + G) 2 2 4"
  using forPush_grid [of 2 "S + G" 1 4] by (simp add: getCubePositions_def Let_def)

lemma getCubePositions_9: "getCubePositions S G 9 = gridLayout (S + G) 3 3 9"
  using forPush_grid [of 3 "S + G" 2 9] by (simp add: getCubePositions_def Let_def)

lemma getCubePositions_column:
  assumes "v = 7 \<or> v \<le> 5 \<and> v \<noteq> 4"
  shows "getCubePositions S G v = gridLayout (S + G) 1 v v"
proof -
  have "getCubePositions S G v
        = forPush (\<lambda>i. \<lparr>pos_x = 0, pos_y = (v - 1 - i) * (S + G)\<rparr>) 0 v []"
    using assms by (cases "v = 7") (simp_all add: getCubePositions_def)
  also have "\<dots> = gridLayout (S + G) 1 v v"
    using forPush_column [of "v - 1" "S + G" v] by simp
  finally show ?thesis .
qed

lemma getCubePositions_wide:
  assumes "6 \<le> v" "v \<noteq> 7" "v \<noteq> 9"
  shows "getCubePositions S G v =
         gridLayout (S + G) (if v \<le> 29 then 2 else v div 10)
           (\<lceil>real_of_int v / real_of_int (if v \<le> 29 then 2 else v div 10)\<rceil>) v"
proof (cases "v \<le> 29")
  case True
  with assms show ?thesis
    using forPush_grid [of 2 "S + G" "ceil_div v 2 - 1" v]
    by (simp add: getCubePositions_def Let_def ceil_div_real)
next
  case False
  then have "0 < v div 10" by simp
  with False assms show ?thesis
    using forPush_grid [of "v div 10" "S + G" "ceil_div v (v div 10) - 1" v]
    by (simp add: getCubePositions_def Let_def ceil_div_real floor_div_def)
qed

lemma getCubePositions_is_grid:
  "\<exists>c r. getCubePositions S G v = gridLayout (S + G) c r v"
proof -
  consider "v = 4" | "v = 9" | "v = 7 \<or> v \<le> 5 \<and> v \<noteq> 4" | "6 \<le> v" "v \<noteq> 7" "v \<noteq> 9"
    by linarith
  then show ?thesis
  proof cases
    case 1 then show ?thesis using getCubePositions_4 [of S G] by blast
  next
    case 2 then show ?thesis using getCubePositions_9 [of S G] by blast
  next
    case 3 then show ?thesis using getCubePositions_column [of v S G] by blast
  next
    case 4 then show ?thesis using getCubePositions_wide [of v S G] by blast
  qed
qed

lemma length_getCubePositions: "length (getCubePositions S G v) = nat v"
  using getCubePositions_is_grid [of S G v] by (auto simp add: length_gridLayout)

lemma distinct_getCubePositions: "S + G \<noteq> 0 \<Longrightarrow> distinct (getCubePositions S G v)"
  using getCubePositions_is_grid [of S G v] by (auto simp add: distinct_gridLayout)

section \<open>The reduction that picks the face cube\<close>

lemma topCubeStep_prefix:
  assumes "arr \<noteq> []"
  shows "k \<le> length arr \<Longrightarrow>
         fold (\<lambda>idx acc. topCubeStep acc (arr ! idx) idx arr) [0..<k] 0 < length arr \<and>
         (\<forall>j<k. topLeftLe (arr ! fold (\<lambda>idx acc. topCubeStep acc (arr ! idx) idx arr) [0..<k] 0)
                   (arr ! j))"
proof (induction k)
  case 0
  with assms show ?case by simp
next
  case (Suc k)
  define r where "r = fold (\<lambda>idx acc. topCubeStep acc (arr ! idx) idx arr) [0..<k] 0"
  from Suc have r: "r < length arr" and least: "\<forall>j<k. topLeftLe (arr ! r) (arr ! j)"
    and k: "k < length arr"
    by (simp_all add: r_def)
  have step: "fold (\<lambda>idx acc. topCubeStep acc (arr ! idx) idx arr) [0..<Suc k] 0
              = topCubeStep r (arr ! k) k arr"
    by (simp add: r_def)
  have "topCubeStep r (arr ! k) k arr = r \<or> topCubeStep r (arr ! k) k arr = k"
    by (simp add: topCubeStep_def Let_def)
  with r k have bound: "topCubeStep r (arr ! k) k arr < length arr"
    by auto
  have "topLeftLe (arr ! topCubeStep r (arr ! k) k arr) (arr ! j)" if "j < Suc k" for j
  proof (cases "j = k")
    case True
    then show ?thesis
      by (simp add: topCubeStep_def Let_def topLeftLe_def)
  next
    case False
    with that have "j < k" by simp
    with least have "topLeftLe (arr ! r) (arr ! j)" by simp
    then show ?thesis
      by (auto simp add: topCubeStep_def Let_def topLeftLe_def)
  qed
  with bound show ?case
    by (simp only: step) simp
qed

lemma topCubeIndex_less: "arr \<noteq> [] \<Longrightarrow> topCubeIndex arr < length arr"
  using topCubeStep_prefix [of arr "length arr"] by (simp add: topCubeIndex_def reduce_def)

lemma topCubeIndex_least:
  "j < length arr \<Longrightarrow> topLeftLe (arr ! topCubeIndex arr) (arr ! j)"
  using topCubeStep_prefix [of arr "length arr"]
  by (cases "arr = []") (simp_all add: topCubeIndex_def reduce_def)

section \<open>The rendered cubes by index\<close>

lemma length_NumberBlock: "length (NumberBlock P S G v) = nat v"
  by (simp add: NumberBlock_def Let_def length_getCubePositions)

lemma nth_NumberBlock:
  assumes "i < nat v"
  shows "NumberBlock P S G v ! i =
     \<lparr>cube_color = getCubeColor P v (int i) (int (nat v)),
      cube_hasRedOutline =
        (v \<ge> 10 \<and> (js_rem v 10 = 0 \<or> int i < (if v \<ge> 10 then floor_div v 10 * 10 else 0))),
      cube_hasFace = (i = topCubeIndex (getCubePositions S G v)),
      cube_eyeCount = eyeCount v,
      cube_starEyes = starEyes v,
      cube_left = pos_x (getCubePositions S G v ! i),
      cube_top = pos_y (getCubePositions S G v ! i)\<rparr>"
  using assms
  by (simp add: NumberBlock_def Let_def length_getCubePositions nth_enumerate_eq)

lemma count_one_index:
  assumes "t < length xs" and "\<And>i. i < length xs \<Longrightarrow> P (xs ! i) \<longleftrightarrow> i = t"
  shows "length (filter P xs) = 1"
proof -
  have "{i. i < length xs \<and> P (xs ! i)} = {t}"
    using assms by auto
  then show ?thesis
    by (simp add: length_filter_conv_card)
qed

lemma topLeftLe_antisym: "topLeftLe p q \<Longrightarrow> topLeftLe q p \<Longrightarrow> p = q"
  by (auto simp add: topLeftLe_def)

section \<open>The layouts of small values, written out\<close>

lemma layout_4: "getCubePositions S G 4 =
   [\<lparr>pos_x = 0, pos_y = S + G\<rparr>, \<lparr>pos_x = S + G, pos_y = S + G\<rparr>,
    \<lparr>pos_x = 0, pos_y = 0\<rparr>, \<lparr>pos_x = S + G, pos_y = 0\<rparr>]"
  by (simp add: getCubePositions_4 gridLayout_def upto_rec1)

lemma layout_7: "getCubePositions S G 7 =
   [\<lparr>pos_x = 0, pos_y = 6 * (S + G)\<rparr>, \<lparr>pos_x = 0, pos_y = 5 * (S + G)\<rparr>,
    \<lparr>pos_x = 0, pos_y = 4 * (S + G)\<rparr>, \<lparr>pos_x = 0, pos_y = 3 * (S + G)\<rparr>,
    \<lparr>pos_x = 0, pos_y = 2 * (S + G)\<rparr>, \<lparr>pos_x = 0, pos_y = S + G\<rparr>,
    \<lparr>pos_x = 0, pos_y = 0\<rparr>]"
  by (simp add: getCubePositions_column gridLayout_def upto_rec1)

lemma layout_9: "getCubePositions S G 9 =
   [\<lparr>pos_x = 0, pos_y = 2 * (S + G)\<rparr>, \<lparr>pos_x = S + G, pos_y = 2 * (S + G)\<rparr>,
    \<lparr>pos_x = 2 * (S + G), pos_y = 2 * (S + G)\<rparr>,
    \<lparr>pos_x = 0, pos_y = S + G\<rparr>, \<lparr>pos_x = S + G, pos_y = S + G\<rparr>,
    \<lparr>pos_x = 2 * (S + G), pos_y = S + G\<rparr>,
    \<lparr>pos_x = 0, pos_y = 0\<rparr>, \<lparr>pos_x = S + G, pos_y = 0\<rparr>,
    \<lparr>pos_x = 2 * (S + G), pos_y = 0\<rparr>]"
  by (simp add: getCubePositions_9 gridLayout_def upto_rec1)

lemma layout_1: "getCubePositions S G 1 = [\<lparr>pos_x = 0, pos_y = 0\<rparr>]"
  by (simp add: getCubePositions_column gridLayout_def upto_rec1)

lemma layout_2: "getCubePositions S G 2 =
   [\<lparr>pos_x = 0, pos_y = S + G\<rparr>, \<lparr>pos_x = 0, pos_y = 0\<rparr>]"
  by (simp add: getCubePositions_column gridLayout_def upto_rec1)

lemma layout_3: "getCubePositions S G 3 =
   [\<lparr>pos_x = 0, pos_y = 2 * (S + G)\<rparr>, \<lparr>pos_x = 0, pos_y = S + G\<rparr>,
    \<lparr>pos_x = 0, pos_y = 0\<rparr>]"
  by (simp add: getCubePositions_column gridLayout_def upto_rec1)

lemma layout_5: "getCubePositions S G 5 =
   [\<lparr>pos_x = 0, pos_y = 4 * (S + G)\<rparr>, \<lparr>pos_x = 0, pos_y = 3 * (S + G)\<rparr>,
    \<lparr>pos_x = 0, pos_y = 2 * (S + G)\<rparr>, \<lparr>pos_x = 0, pos_y = S + G\<rparr>,
    \<lparr>pos_x = 0, pos_y = 0\<rparr>]"
  by (simp add: getCubePositions_column gridLayout_def upto_rec1)

lemma layout_11: "getCubePositions S G 11 =
   [\<lparr>pos_x = 0, pos_y = 5 * (S + G)\<rparr>, \<lparr>pos_x = S + G, pos_y = 5 * (S + G)\<rparr>,
    \<lparr>pos_x = 0, pos_y = 4 * (S + G)\<rparr>, \<lparr>pos_x = S + G, pos_y = 4 * (S + G)\<rparr>,
    \<lparr>pos_x = 0, pos_y = 3 * (S + G)\<rparr>, \<lparr>pos_x = S + G, pos_y = 3 * (S + G)\<rparr>,
    \<lparr>pos_x = 0, pos_y = 2 * (S + G)\<rparr>, \<lparr>pos_x = S + G, pos_y = 2 * (S + G)\<rparr>,
    \<lparr>pos_x = 0, pos_y = S + G\<rparr>, \<lparr>pos_x = S + G, pos_y = S + G\<rparr>,
    \<lparr>pos_x = 0, pos_y = 0\<rparr>]"
  by (simp add: getCubePositions_wide gridLayout_def upto_rec1)

lemma gray_colors: "map (\<lambda>i. getCubeColor P 9 i t) [0..8] =
     [''#D0D0D0'', ''#D0D0D0'', ''#D0D0D0'', ''#A0A0A0'', ''#A0A0A0'', ''#A0A0A0'',
      ''#606060'', ''#606060'', ''#606060'']"
  by (simp add: getCubeColor_def arrayGet_def orElse_def NINE_GRAY_COLORS_def upto_rec1)

section \<open>Tens and remainder of a value above ten\<close>

lemma tens_arith:
  assumes "10 < (v::int)"
  shows "floor_div v 10 * 10 = v div 10 * 10" and "js_rem v 10 = v mod 10"
    and "0 < v div 10 * 10" and "v div 10 * 10 \<le> v"
  using assms by (simp_all add: floor_div_def js_rem_nonneg)

section \<open>The branches of \<open>getCubeColor\<close> and where they are defined\<close>








section \<open>Claims about the layout\<close>

text \<open>
  C1. For every integer value of at least 1, \<open>getCubePositions\<close> returns exactly \<open>value\<close>
  offsets. The offsets are pairwise distinct as soon as \<open>CUBE_SIZE + CUBE_GAP\<close> is not
  zero (the two constants are parameters here). The result depends on nothing but the
  value and the two constants, so two calls give the same sequence and the same face-cube
  index.
\<close>

theorem getCubePositions_count_distinct:
  assumes "1 \<le> v"
  shows "int (length (getCubePositions S G v)) = v \<and>
         (S + G \<noteq> 0 \<longrightarrow> distinct (getCubePositions S G v)) \<and>
         (\<forall>ps qs. ps = getCubePositions S G v \<and> qs = getCubePositions S G v \<longrightarrow>
                  ps = qs \<and> topCubeIndex ps = topCubeIndex qs)"
  using assms by (simp add: length_getCubePositions distinct_getCubePositions)

theorem getCubePositions_count_distinct_witness:
  "(1::int) \<le> 11 \<and> int (length (getCubePositions 40 4 11)) = 11 \<and>
   distinct (getCubePositions 40 4 11)"
  using getCubePositions_count_distinct [of 11 40 4] by simp

text \<open>
  C6. The special layouts, with \<open>u = CUBE_SIZE + CUBE_GAP\<close>: value 4 is a 2 by 2 square
  filled row by row, the first row at the bottom (\<open>y = u\<close>) and the second at the top
  (\<open>y = 0\<close>); value 7 is one column of 7 cubes, from \<open>y = 6u\<close> at the bottom to \<open>y = 0\<close>
  at the top; value 9 is a 3 by 3 square filled row by row from the bottom; values 1, 2,
  3 and 5 are one column (every \<open>x\<close> is 0), first cube at the bottom.
\<close>

theorem getCubePositions_special_layouts:
  "getCubePositions S G 4 =
     [\<lparr>pos_x = 0, pos_y = S + G\<rparr>, \<lparr>pos_x = S + G, pos_y = S + G\<rparr>,
      \<lparr>pos_x = 0, pos_y = 0\<rparr>, \<lparr>pos_x = S + G, pos_y = 0\<rparr>] \<and>
   getCubePositions S G 7 =
     [\<lparr>pos_x = 0, pos_y = 6 * (S + G)\<rparr>, \<lparr>pos_x = 0, pos_y = 5 * (S + G)\<rparr>,
      \<lparr>pos_x = 0, pos_y = 4 * (S + G)\<rparr>, \<lparr>pos_x = 0, pos_y = 3 * (S + G)\<rparr>,
      \<lparr>pos_x = 0, pos_y = 2 * (S + G)\<rparr>, \<lparr>pos_x = 0, pos_y = S + G\<rparr>,
      \<lparr>pos_x = 0, pos_y = 0\<rparr>] \<and>
   getCubePositions S G 9 =
     [\<lparr>pos_x = 0, pos_y = 2 * (S + G)\<rparr>, \<lparr>pos_x = S + G, pos_y = 2 * (S + G)\<rparr>,
      \<lparr>pos_x = 2 * (S + G), pos_y = 2 * (S + G)\<rparr>,
      \<lparr>pos_x = 0, pos_y = S + G\<rparr>, \<lparr>pos_x = S + G, pos_y = S + G\<rparr>,
      \<lparr>pos_x = 2 * (S + G), pos_y = S + G\<rparr>,
      \<lparr>pos_x = 0, pos_y = 0\<rparr>, \<lparr>pos_x = S + G, pos_y = 0\<rparr>,
      \<lparr>pos_x = 2 * (S + G), pos_y = 0\<rparr>] \<and>
   getCubePositions S G 1 = [\<lparr>pos_x = 0, pos_y = 0\<rparr>] \<and>
   getCubePositions S G 2 = [\<lparr>pos_x = 0, pos_y = S + G\<rparr>, \<lparr>pos_x = 0, pos_y = 0\<rparr>] \<and>
   getCubePositions S G 3 =
     [\<lparr>pos_x = 0, pos_y = 2 * (S + G)\<rparr>, \<lparr>pos_x = 0, pos_y = S + G\<rparr>,
      \<lparr>pos_x = 0, pos_y = 0\<rparr>] \<and>
   getCubePositions S G 5 =
     [\<lparr>pos_x = 0, pos_y = 4 * (S + G)\<rparr>, \<lparr>pos_x = 0, pos_y = 3 * (S + G)\<rparr>,
      \<lparr>pos_x = 0, pos_y = 2 * (S + G)\<rparr>, \<lparr>pos_x = 0, pos_y = S + G\<rparr>,
      \<lparr>pos_x = 0, pos_y = 0\<rparr>]"
  by (intro conjI) (fact layout_4 layout_7 layout_9 layout_1 layout_2 layout_3 layout_5)+

text \<open>
  C2. For every value of at least 6 other than 7 and 9, the layout has \<open>cols = 2\<close> columns
  when the value is at most 29 and \<open>cols = floor (value / 10)\<close> columns from 30 on, and
  \<open>rows = ceil (value / cols)\<close> rows; cube \<open>i\<close> is placed at
  \<open>x = (i mod cols) * (CUBE_SIZE + CUBE_GAP)\<close>,
  \<open>y = (rows - 1 - floor (i / cols)) * (CUBE_SIZE + CUBE_GAP)\<close>. For value 11 and a positive
  \<open>CUBE_SIZE + CUBE_GAP\<close> the offsets take 2 horizontal and 6 vertical positions, and the
  topmost row (the smallest \<open>y\<close>) holds exactly one cube, in the leftmost column (the
  smallest \<open>x\<close>).
\<close>

theorem getCubePositions_columns_rows:
  assumes "6 \<le> v" and "v \<noteq> 7" and "v \<noteq> 9"
  shows "(let cols = (if v \<le> 29 then 2 else \<lfloor>real_of_int v / 10\<rfloor>);
              rows = \<lceil>real_of_int v / real_of_int cols\<rceil>
          in \<forall>i. 0 \<le> i \<and> i < v \<longrightarrow>
               getCubePositions S G v ! nat i =
                 \<lparr>pos_x = (i mod cols) * (S + G),
                  pos_y = (rows - 1 - \<lfloor>real_of_int i / real_of_int cols\<rfloor>) * (S + G)\<rparr>) \<and>
         (0 < S + G \<longrightarrow>
            card (pos_x ` set (getCubePositions S G 11)) = 2 \<and>
            card (pos_y ` set (getCubePositions S G 11)) = 6 \<and>
            filter (\<lambda>p. pos_y p = Min (pos_y ` set (getCubePositions S G 11)))
              (getCubePositions S G 11) = [\<lparr>pos_x = 0, pos_y = 0\<rparr>] \<and>
            Min (pos_x ` set (getCubePositions S G 11)) = 0)"
proof (intro conjI impI)
  have c: "\<lfloor>real_of_int v / 10\<rfloor> = v div 10"
    using floor_divide_of_int_eq [of v 10, where ?'a = real] by simp
  show "let cols = (if v \<le> 29 then 2 else \<lfloor>real_of_int v / 10\<rfloor>);
            rows = \<lceil>real_of_int v / real_of_int cols\<rceil>
        in \<forall>i. 0 \<le> i \<and> i < v \<longrightarrow>
             getCubePositions S G v ! nat i =
               \<lparr>pos_x = (i mod cols) * (S + G),
                pos_y = (rows - 1 - \<lfloor>real_of_int i / real_of_int cols\<rfloor>) * (S + G)\<rparr>"
    unfolding Let_def c
    by (simp only: getCubePositions_wide [OF assms] floor_divide_of_int_eq)
      (simp add: nth_gridLayout)
next
  assume u: "0 < S + G"
  define w where "w = S + G"
  with u have w: "0 < w" "w \<noteq> 0" "0 \<noteq> w" by simp_all
  have m: "Min {5 * w, 4 * w, 3 * w, 2 * w, w, 0} = 0"
    using w by (intro Min_eqI) auto
  have xs: "pos_x ` set (getCubePositions S G 11) = {0, w}"
    by (auto simp add: layout_11 w_def)
  have ys: "pos_y ` set (getCubePositions S G 11) = {5 * w, 4 * w, 3 * w, 2 * w, w, 0}"
    by (auto simp add: layout_11 w_def)
  show "card (pos_x ` set (getCubePositions S G 11)) = 2"
    using w by (simp add: xs)
  show "card (pos_y ` set (getCubePositions S G 11)) = 6"
    using w by (simp add: ys)
  show "filter (\<lambda>p. pos_y p = Min (pos_y ` set (getCubePositions S G 11)))
          (getCubePositions S G 11) = [\<lparr>pos_x = 0, pos_y = 0\<rparr>]"
    unfolding ys m using w by (simp add: layout_11 w_def [symmetric])
  have "Min {0, w} = 0"
    using w by (intro Min_eqI) auto
  then show "Min (pos_x ` set (getCubePositions S G 11)) = 0"
    by (simp only: xs)
qed

theorem getCubePositions_columns_rows_witness:
  "getCubePositions 40 4 11 ! 10 = \<lparr>pos_x = 0, pos_y = 0\<rparr> \<and>
   getCubePositions 40 4 35 ! 34 = \<lparr>pos_x = 44, pos_y = 0\<rparr> \<and>
   card (pos_x ` set (getCubePositions 40 4 11)) = 2 \<and>
   card (pos_y ` set (getCubePositions 40 4 11)) = 6 \<and>
   filter (\<lambda>p. pos_y p = Min (pos_y ` set (getCubePositions 40 4 11)))
     (getCubePositions 40 4 11) = [\<lparr>pos_x = 0, pos_y = 0\<rparr>] \<and>
   Min (pos_x ` set (getCubePositions 40 4 11)) = 0"
proof -
  have a: "(6::int) \<le> 11" "(11::int) \<noteq> 7" "(11::int) \<noteq> 9"
    and b: "(6::int) \<le> 35" "(35::int) \<noteq> 7" "(35::int) \<noteq> 9"
    by simp_all
  from getCubePositions_columns_rows [OF a, of 40 4]
  have p11: "\<forall>i. 0 \<le> i \<and> i < 11 \<longrightarrow>
          getCubePositions 40 4 11 ! nat i =
          \<lparr>pos_x = i mod 2 * 44, pos_y = (6 - 1 - \<lfloor>real_of_int i / 2\<rfloor>) * 44\<rparr>"
    and rest: "card (pos_x ` set (getCubePositions 40 4 11)) = 2 \<and>
        card (pos_y ` set (getCubePositions 40 4 11)) = 6 \<and>
        filter (\<lambda>p. pos_y p = Min (pos_y ` set (getCubePositions 40 4 11)))
          (getCubePositions 40 4 11) = [\<lparr>pos_x = 0, pos_y = 0\<rparr>] \<and>
        Min (pos_x ` set (getCubePositions 40 4 11)) = 0"
    by (simp_all add: Let_def)
  from getCubePositions_columns_rows [OF b, of 40 4]
  have p35: "\<forall>i. 0 \<le> i \<and> i < 35 \<longrightarrow>
          getCubePositions 40 4 35 ! nat i =
          \<lparr>pos_x = i mod 3 * 44, pos_y = (12 - 1 - \<lfloor>real_of_int i / 3\<rfloor>) * 44\<rparr>"
    by (simp add: Let_def)
  from p11 [rule_format, of 10] p35 [rule_format, of 34] rest show ?thesis
    by simp
qed

section \<open>Claims about the face\<close>

text \<open>
  C7. For every value of at least 1, exactly one rendered cube has \<open>hasFace\<close>. Its offset
  is topmost-then-leftmost among all cubes of the block: smallest \<open>top\<close>, and among equal
  \<open>top\<close> smallest \<open>left\<close>. When \<open>CUBE_SIZE + CUBE_GAP\<close> is not zero, no other cube has such
  an offset.
\<close>

theorem NumberBlock_one_face_top_left:
  assumes "1 \<le> v"
  shows "length (filter cube_hasFace (NumberBlock P S G v)) = 1 \<and>
         (\<forall>c \<in> set (NumberBlock P S G v). cube_hasFace c \<longrightarrow>
            (\<forall>d \<in> set (NumberBlock P S G v).
               cube_top c < cube_top d \<or> (cube_top c = cube_top d \<and> cube_left c \<le> cube_left d))) \<and>
         (S + G \<noteq> 0 \<longrightarrow>
            (\<forall>c \<in> set (NumberBlock P S G v).
               (\<forall>d \<in> set (NumberBlock P S G v).
                  cube_top c < cube_top d \<or> (cube_top c = cube_top d \<and> cube_left c \<le> cube_left d))
               \<longrightarrow> cube_hasFace c))"
proof -
  define ps where "ps = getCubePositions S G v"
  define cubes where "cubes = NumberBlock P S G v"
  define t where "t = topCubeIndex ps"
  have len_ps: "length ps = nat v" by (simp add: ps_def length_getCubePositions)
  have len: "length cubes = nat v" by (simp add: cubes_def length_NumberBlock)
  from assms len_ps have "ps \<noteq> []" by auto
  then have t: "t < nat v" using topCubeIndex_less [of ps] len_ps by (simp add: t_def)
  have face: "cube_hasFace (cubes ! i) \<longleftrightarrow> i = t" if "i < nat v" for i
    using that by (simp add: cubes_def nth_NumberBlock t_def ps_def)
  have left: "cube_left (cubes ! i) = pos_x (ps ! i)" if "i < nat v" for i
    using that by (simp add: cubes_def nth_NumberBlock ps_def)
  have top: "cube_top (cubes ! i) = pos_y (ps ! i)" if "i < nat v" for i
    using that by (simp add: cubes_def nth_NumberBlock ps_def)
  have least: "topLeftLe (ps ! t) (ps ! j)" if "j < nat v" for j
    using that topCubeIndex_least [of j ps] len_ps by (simp add: t_def)
  have one: "length (filter cube_hasFace cubes) = 1"
    using t face len by (intro count_one_index [of t]) simp_all
  have min: "cube_top c < cube_top d \<or> (cube_top c = cube_top d \<and> cube_left c \<le> cube_left d)"
    if "c \<in> set cubes" "cube_hasFace c" "d \<in> set cubes" for c d
  proof -
    from that(1) len obtain i where i: "i < nat v" "c = cubes ! i"
      by (auto simp add: in_set_conv_nth)
    from that(3) len obtain j where j: "j < nat v" "d = cubes ! j"
      by (auto simp add: in_set_conv_nth)
    from that(2) i face have "i = t" by simp
    with least [OF j(1)] i j t show ?thesis
      by (simp add: left top topLeftLe_def)
  qed
  have only: "cube_hasFace c"
    if u: "S + G \<noteq> 0" and c: "c \<in> set cubes"
      and m: "\<forall>d \<in> set cubes.
        cube_top c < cube_top d \<or> (cube_top c = cube_top d \<and> cube_left c \<le> cube_left d)" for c
  proof -
    from c len obtain i where i: "i < nat v" "c = cubes ! i"
      by (auto simp add: in_set_conv_nth)
    from t len have "cubes ! t \<in> set cubes" by simp
    with m have "cube_top c < cube_top (cubes ! t) \<or>
        (cube_top c = cube_top (cubes ! t) \<and> cube_left c \<le> cube_left (cubes ! t))"
      by blast
    with i t have "topLeftLe (ps ! i) (ps ! t)"
      by (simp add: left top topLeftLe_def)
    with least [OF i(1)] have "ps ! i = ps ! t"
      by (intro topLeftLe_antisym)
    moreover from u have "distinct ps"
      by (simp add: ps_def distinct_getCubePositions)
    ultimately have "i = t"
      using i(1) t len_ps by (simp add: nth_eq_iff_index_eq)
    with i face show ?thesis by simp
  qed
  from one min only show ?thesis
    unfolding cubes_def by blast
qed

theorem NumberBlock_one_face_top_left_witness:
  "length (filter cube_hasFace (NumberBlock basePalette 40 4 11)) = 1 \<and>
   cube_hasFace (NumberBlock basePalette 40 4 11 ! 10) \<and>
   (cube_top (NumberBlock basePalette 40 4 11 ! 10) < cube_top (NumberBlock basePalette 40 4 11 ! 9) \<or>
    cube_top (NumberBlock basePalette 40 4 11 ! 10) = cube_top (NumberBlock basePalette 40 4 11 ! 9) \<and>
    cube_left (NumberBlock basePalette 40 4 11 ! 10) \<le> cube_left (NumberBlock basePalette 40 4 11 ! 9))"
proof -
  have v: "(1::int) \<le> 11" by simp
  have m10: "NumberBlock basePalette 40 4 11 ! 10 \<in> set (NumberBlock basePalette 40 4 11)"
    by (simp add: length_NumberBlock)
  have m9: "NumberBlock basePalette 40 4 11 ! 9 \<in> set (NumberBlock basePalette 40 4 11)"
    by (simp add: length_NumberBlock)
  have f: "cube_hasFace (NumberBlock basePalette 40 4 11 ! 10)"
    by code_simp
  from NumberBlock_one_face_top_left [OF v, of basePalette 40 4] m10 m9 f show ?thesis
    by blast
qed

text \<open>
  C8. The eyes of the face cube follow the value: value 1 draws only the left eye, a
  normal one; value 5 draws a blue star eye on the left and a normal eye on the right;
  value 10 draws two red star eyes; every other value draws two normal eyes.
\<close>

theorem NumberBlock_face_eyes:
  assumes "i < length (NumberBlock P S G v)"
    and "cube_hasFace (NumberBlock P S G v ! i)"
  shows "cubeFace (NumberBlock P S G v ! i) =
     Some (if v = 1 then \<lparr>leftEye = Some NormalEye, rightEye = None\<rparr>
           else if v = 5 then \<lparr>leftEye = Some (StarEye Blue), rightEye = Some NormalEye\<rparr>
           else if v = 10 then \<lparr>leftEye = Some (StarEye Red), rightEye = Some (StarEye Red)\<rparr>
           else \<lparr>leftEye = Some NormalEye, rightEye = Some NormalEye\<rparr>)"
proof -
  define c where "c = NumberBlock P S G v ! i"
  from assms(1) have i: "i < nat v"
    by (simp add: length_NumberBlock)
  have e: "cube_eyeCount c = eyeCount v" and s: "cube_starEyes c = starEyes v"
    by (simp_all add: c_def nth_NumberBlock [OF i])
  from assms(2) have f: "cube_hasFace c"
    by (simp only: c_def)
  have "cubeFace c =
     Some (if v = 1 then \<lparr>leftEye = Some NormalEye, rightEye = None\<rparr>
           else if v = 5 then \<lparr>leftEye = Some (StarEye Blue), rightEye = Some NormalEye\<rparr>
           else if v = 10 then \<lparr>leftEye = Some (StarEye Red), rightEye = Some (StarEye Red)\<rparr>
           else \<lparr>leftEye = Some NormalEye, rightEye = Some NormalEye\<rparr>)"
    by (simp add: cubeFace_def e s f eyeCount_def starEyes_def)
  then show ?thesis
    by (simp only: c_def)
qed

theorem NumberBlock_face_eyes_witness:
  "cubeFace (NumberBlock basePalette 40 4 1 ! 0) =
     Some \<lparr>leftEye = Some NormalEye, rightEye = None\<rparr> \<and>
   cubeFace (NumberBlock basePalette 40 4 5 ! 4) =
     Some \<lparr>leftEye = Some (StarEye Blue), rightEye = Some NormalEye\<rparr> \<and>
   cubeFace (NumberBlock basePalette 40 4 10 ! 8) =
     Some \<lparr>leftEye = Some (StarEye Red), rightEye = Some (StarEye Red)\<rparr> \<and>
   cubeFace (NumberBlock basePalette 40 4 11 ! 10) =
     Some \<lparr>leftEye = Some NormalEye, rightEye = Some NormalEye\<rparr>"
proof -
  have l1: "0 < length (NumberBlock basePalette 40 4 1)"
    and l5: "4 < length (NumberBlock basePalette 40 4 5)"
    and l10: "8 < length (NumberBlock basePalette 40 4 10)"
    and l11: "10 < length (NumberBlock basePalette 40 4 11)"
    by (simp_all add: length_NumberBlock)
  have f1: "cube_hasFace (NumberBlock basePalette 40 4 1 ! 0)" by code_simp
  have f5: "cube_hasFace (NumberBlock basePalette 40 4 5 ! 4)" by code_simp
  have f10: "cube_hasFace (NumberBlock basePalette 40 4 10 ! 8)" by code_simp
  have f11: "cube_hasFace (NumberBlock basePalette 40 4 11 ! 10)" by code_simp
  from NumberBlock_face_eyes [OF l1 f1] NumberBlock_face_eyes [OF l5 f5]
    NumberBlock_face_eyes [OF l10 f10] NumberBlock_face_eyes [OF l11 f11]
  show ?thesis by simp
qed

section \<open>Claims about the colors\<close>

text \<open>
  C4. For value 7 and every index \<open>i\<close> from 0 to 6, \<open>getCubeColor\<close> returns the palette
  color of \<open>i + 1\<close>, and cube \<open>i\<close> sits in the single column at \<open>y = (6 - i) * u\<close>, so
  index 0 is the bottom cube and index 6 the top one. The seven colors are pairwise
  distinct when the palette gives the values 1 to 7 pairwise distinct colors; with the
  base palette of the specification they are.
\<close>

theorem getCubeColor_seven_rainbow:
  assumes "0 \<le> i" and "i < 7"
  shows "getCubeColor P 7 i t = P (i + 1) \<and>
         getCubePositions S G 7 ! nat i = \<lparr>pos_x = 0, pos_y = (6 - i) * (S + G)\<rparr> \<and>
         (distinct (map P [1..7]) \<longrightarrow> distinct (map (\<lambda>k. getCubeColor P 7 k t) [0..6])) \<and>
         distinct (map (\<lambda>k. getCubeColor basePalette 7 k t) [0..6])"
proof (intro conjI)
  show "getCubeColor P 7 i t = P (i + 1)"
    by (simp add: getCubeColor_def)
  show "getCubePositions S G 7 ! nat i = \<lparr>pos_x = 0, pos_y = (6 - i) * (S + G)\<rparr>"
    using assms nth_gridLayout [of i 7 "S + G" 1 7]
    by (simp add: getCubePositions_column)
  have "map (\<lambda>k. getCubeColor P 7 k t) [0..6] = map P [1..7]"
    by (simp add: getCubeColor_def upto_rec1)
  then show "distinct (map P [1..7]) \<longrightarrow> distinct (map (\<lambda>k. getCubeColor P 7 k t) [0..6])"
    by simp
  have "map (\<lambda>k. getCubeColor basePalette 7 k t) [0..6] = map basePalette [1..7]"
    by (simp add: getCubeColor_def upto_rec1)
  then show "distinct (map (\<lambda>k. getCubeColor basePalette 7 k t) [0..6])"
    by (simp add: basePalette_def upto_rec1)
qed

theorem getCubeColor_seven_rainbow_witness:
  "getCubeColor basePalette 7 0 7 = ''Red'' \<and>
   getCubePositions 40 4 7 ! 0 = \<lparr>pos_x = 0, pos_y = 264\<rparr> \<and>
   getCubeColor basePalette 7 6 7 = ''Violet'' \<and>
   getCubePositions 40 4 7 ! 6 = \<lparr>pos_x = 0, pos_y = 0\<rparr> \<and>
   distinct (map (\<lambda>k. getCubeColor basePalette 7 k 7) [0..6])"
proof -
  have d: "distinct (map basePalette [1..7])"
    by (simp add: basePalette_def upto_rec1)
  from getCubeColor_seven_rainbow [of 0 basePalette 7 40 4]
    getCubeColor_seven_rainbow [of 6 basePalette 7 40 4] d
  show ?thesis
    by (simp add: basePalette_def)
qed

text \<open>
  C5. For value 9, \<open>getCubeColor\<close> returns \<open>#D0D0D0\<close> for the indices 0, 1, 2, \<open>#A0A0A0\<close>
  for 3, 4, 5 and \<open>#606060\<close> for 6, 7, 8. In the 3 by 3 layout the indices 0, 1, 2 are
  the row \<open>y = 2u\<close> (the bottom one), 3, 4, 5 the row \<open>y = u\<close> and 6, 7, 8 the row
  \<open>y = 0\<close> (the top one). The table holds exactly these three shades; the source names
  them lightest, middle and darkest.
\<close>

theorem getCubeColor_nine_gray_rows:
  "map (\<lambda>i. getCubeColor P 9 i t) [0..8] =
     [''#D0D0D0'', ''#D0D0D0'', ''#D0D0D0'', ''#A0A0A0'', ''#A0A0A0'', ''#A0A0A0'',
      ''#606060'', ''#606060'', ''#606060''] \<and>
   map pos_y (getCubePositions S G 9) =
     [2 * (S + G), 2 * (S + G), 2 * (S + G), S + G, S + G, S + G, 0, 0, 0] \<and>
   set NINE_GRAY_COLORS = {''#D0D0D0'', ''#A0A0A0'', ''#606060''} \<and>
   card (set NINE_GRAY_COLORS) = 3"
proof (intro conjI)
  show "map (\<lambda>i. getCubeColor P 9 i t) [0..8] =
     [''#D0D0D0'', ''#D0D0D0'', ''#D0D0D0'', ''#A0A0A0'', ''#A0A0A0'', ''#A0A0A0'',
      ''#606060'', ''#606060'', ''#606060'']"
    by (fact gray_colors)
  show "map pos_y (getCubePositions S G 9) =
     [2 * (S + G), 2 * (S + G), 2 * (S + G), S + G, S + G, S + G, 0, 0, 0]"
    by (simp add: layout_9)
  show "set NINE_GRAY_COLORS = {''#D0D0D0'', ''#A0A0A0'', ''#606060''}"
    by (auto simp add: NINE_GRAY_COLORS_def)
  show "card (set NINE_GRAY_COLORS) = 3"
    by (simp add: NINE_GRAY_COLORS_def)
qed

text \<open>
  C3. For every value above 10, with \<open>tensCount = floor (value / 10) * 10\<close> and
  \<open>remainder = value mod 10\<close>: \<open>getCubeColor\<close> is white below \<open>tensCount\<close>, every rendered
  cube with an index below \<open>tensCount\<close> is white and has the red outline, and for every
  \<open>j\<close> from 0 to \<open>remainder - 1\<close> the color of cube \<open>tensCount + j\<close> is the color that a
  block of value \<open>remainder\<close> gives its cube \<open>j\<close>.
\<close>

theorem getCubeColor_tens_and_remainder:
  assumes "10 < v"
  shows "(\<forall>i. i < v div 10 * 10 \<longrightarrow> getCubeColor P v i t = ''#FFFFFF'') \<and>
         (\<forall>i. 0 \<le> i \<and> i < v div 10 * 10 \<longrightarrow>
            cube_color (NumberBlock P S G v ! nat i) = ''#FFFFFF'' \<and>
            cube_hasRedOutline (NumberBlock P S G v ! nat i)) \<and>
         (\<forall>j. 0 \<le> j \<and> j < v mod 10 \<longrightarrow>
            getCubeColor P v (v div 10 * 10 + j) t = getCubeColor P (v mod 10) j t')"
proof (intro conjI allI impI)
  fix i assume "i < v div 10 * 10"
  with assms show "getCubeColor P v i t = ''#FFFFFF''"
    by (simp add: getCubeColor_def Let_def tens_arith)
next
  fix i assume i: "0 \<le> i \<and> i < v div 10 * 10"
  with tens_arith(4) [OF assms] have n: "nat i < nat v" by simp
  from i assms show "cube_color (NumberBlock P S G v ! nat i) = ''#FFFFFF''"
    by (simp add: nth_NumberBlock [OF n] getCubeColor_def Let_def tens_arith)
  from i assms show "cube_hasRedOutline (NumberBlock P S G v ! nat i)"
    by (simp add: nth_NumberBlock [OF n] tens_arith)
next
  fix j assume j: "0 \<le> j \<and> j < v mod 10"
  have r: "v mod 10 \<le> 10" by (rule less_imp_le) simp
  from j assms show "getCubeColor P v (v div 10 * 10 + j) t = getCubeColor P (v mod 10) j t'"
    by (simp add: getCubeColor_def Let_def tens_arith r)
qed

theorem getCubeColor_tens_and_remainder_witness:
  "getCubeColor basePalette 23 19 23 = ''#FFFFFF'' \<and>
   cube_color (NumberBlock basePalette 40 4 23 ! 19) = ''#FFFFFF'' \<and>
   cube_hasRedOutline (NumberBlock basePalette 40 4 23 ! 19) \<and>
   getCubeColor basePalette 23 20 23 = getCubeColor basePalette 3 0 3 \<and>
   getCubeColor basePalette 23 21 23 = getCubeColor basePalette 3 1 3 \<and>
   getCubeColor basePalette 23 22 23 = getCubeColor basePalette 3 2 3"
proof -
  have v: "(10::int) < 23" by simp
  have d: "(23::int) div 10 * 10 = 20" and m: "(23::int) mod 10 = 3" by simp_all
  note inst = getCubeColor_tens_and_remainder [OF v, of basePalette 23 40 4 3, unfolded d m]
  from inst have a: "\<forall>i. i < 20 \<longrightarrow> getCubeColor basePalette 23 i 23 = ''#FFFFFF''"
    and b: "\<forall>i. 0 \<le> i \<and> i < 20 \<longrightarrow>
            cube_color (NumberBlock basePalette 40 4 23 ! nat i) = ''#FFFFFF'' \<and>
            cube_hasRedOutline (NumberBlock basePalette 40 4 23 ! nat i)"
    and c: "\<forall>j. 0 \<le> j \<and> j < 3 \<longrightarrow>
            getCubeColor basePalette 23 (20 + j) 23 = getCubeColor basePalette 3 j 3"
    by blast+
  from a [rule_format, of 19] b [rule_format, of 19]
    c [rule_format, of 0] c [rule_format, of 1] c [rule_format, of 2]
  show ?thesis by simp
qed




end
